theory Spec2Isabelle
  imports Main "HOL-Library.Sublist"
begin

section \<open>JavaScript strings and arrays\<close>

text \<open>
  A JavaScript string is modelled as the list of its code units, written as an Isabelle
  \<open>string\<close>. The type \<open>char\<close> has the 256 values below \<open>0x100\<close>; every character the
  service tests for (the error marker, the back-tick, the quote, the line feed and the
  white space characters of that range) is among them.
\<close>

definition newline :: char where
  "newline = CHR 0x0A"

definition quote :: char where
  "quote = CHR 0x27"

definition backslash :: char where
  "backslash = CHR 0x5C"

text \<open>\<^verbatim>\<open>s.startsWith(p)\<close>\<close>

definition startsWith :: "string \<Rightarrow> string \<Rightarrow> bool" where
  "startsWith s p = prefix p s"

text \<open>\<^verbatim>\<open>s.includes(p)\<close>: \<open>p\<close> occurs in \<open>s\<close> as a contiguous run.\<close>

fun includes_str :: "string \<Rightarrow> string \<Rightarrow> bool" where
  "includes_str [] p = (p = [])"
| "includes_str (c # cs) p = (prefix p (c # cs) \<or> includes_str cs p)"

text \<open>
  \<^verbatim>\<open>s.split(sep)\<close> for a non-empty separator: \<open>cur\<close> is the piece being read. The service
  only splits at \<^verbatim>\<open>'\n'\<close> and at \<^verbatim>\<open>'Details:'\<close>.
\<close>

fun split_from :: "string \<Rightarrow> string \<Rightarrow> string \<Rightarrow> string list" where
  "split_from sep cur [] = [cur]"
| "split_from sep cur (c # cs) =
     (if sep \<noteq> [] \<and> prefix sep (c # cs)
      then cur # split_from sep [] (drop (length sep - 1) cs)
      else split_from sep (cur @ [c]) cs)"

definition split :: "string \<Rightarrow> string \<Rightarrow> string list" where
  "split s sep = split_from sep [] s"

text \<open>\<^verbatim>\<open>xs.join('\n')\<close>\<close>

fun join :: "string list \<Rightarrow> string" where
  "join [] = []"
| "join [x] = x"
| "join (x # y # ys) = x @ newline # join (y # ys)"

text \<open>
  \<^verbatim>\<open>s.trim()\<close> removes white space and line terminators at both ends. Below \<open>0x100\<close>
  these are TAB, LF, VT, FF, CR, SP and NBSP.
\<close>

definition is_space :: "char \<Rightarrow> bool" where
  "is_space c = (c \<in> set [CHR 0x09, CHR 0x0A, CHR 0x0B, CHR 0x0C, CHR 0x0D, CHR 0x20, CHR 0xA0])"

definition trim :: "string \<Rightarrow> string" where
  "trim s = rev (dropWhile is_space (rev (dropWhile is_space s)))"

text \<open>\<^verbatim>\<open>xs.slice(i, j)\<close> for \<open>0 \<le> i\<close> and \<open>0 \<le> j\<close>, and \<^verbatim>\<open>xs.slice(-n)\<close>.\<close>

definition slice :: "'a list \<Rightarrow> nat \<Rightarrow> nat \<Rightarrow> 'a list" where
  "slice xs i j = take (min j (length xs) - i) (drop i xs)"

definition slice_last :: "nat \<Rightarrow> 'a list \<Rightarrow> 'a list" where
  "slice_last n xs = drop (length xs - n) xs"

subsection \<open>The regular expression of the missing-file branch\<close>

text \<open>
  \<^verbatim>\<open>line.match(/File `(.+?)'/)\<close>: the leftmost position where \<^verbatim>\<open>File `\<close> is followed by
  at least one character other than a line terminator and then, as early as possible, by
  a quote. The dot matches no line terminator (LF and CR in this range). The result is
  the captured group \<^verbatim>\<open>match[1]\<close>, or \<open>None\<close> when \<^verbatim>\<open>match\<close> is \<^verbatim>\<open>null\<close>.
\<close>

definition is_line_terminator :: "char \<Rightarrow> bool" where
  "is_line_terminator c = (c = CHR 0x0A \<or> c = CHR 0x0D)"

fun lazy_until_quote :: "string \<Rightarrow> string option" where
  "lazy_until_quote [] = None"
| "lazy_until_quote (c # cs) =
     (if c = quote then Some []
      else if is_line_terminator c then None
      else map_option ((#) c) (lazy_until_quote cs))"

definition capture_at :: "string \<Rightarrow> string option" where
  "capture_at s =
     (case s of
        [] \<Rightarrow> None
      | c # cs \<Rightarrow> if is_line_terminator c then None else map_option ((#) c) (lazy_until_quote cs))"

fun match_File :: "string \<Rightarrow> string option" where
  "match_File [] = None"
| "match_File (c # cs) =
     (if prefix ''File `'' (c # cs)
      then (case capture_at (drop 5 cs) of Some g \<Rightarrow> Some g | None \<Rightarrow> match_File cs)
      else match_File cs)"

section \<open>The log interpreter\<close>

record latex_error =
  userFriendlyError :: string
  errorDetails :: string

text \<open>The branch taken for the line that starts with the error marker.\<close>

definition classify :: "string \<Rightarrow> string" where
  "classify line =
     (if includes_str line ''Undefined control sequence''
      then ''Undefined LaTeX command. Check for typos in commands or missing packages.''
      else if includes_str line ''File'' \<and> includes_str line ''not found''
      then ''Missing file or package: ''
           @ (case match_File line of Some g \<Rightarrow> g | None \<Rightarrow> ''unknown'')
           @ ''. Add '' @ backslash # ''usepackage{} for missing packages.''
      else if includes_str line ''Missing''
      then ''Missing delimiter or bracket. Check for unclosed braces, brackets, or math mode.''
      else if includes_str line ''Emergency stop''
      then ''Critical LaTeX error. Check document structure and syntax.''
      else trim (drop 1 line))"

text \<open>
  The \<^verbatim>\<open>for (let i = 0; i < lines.length; i++)\<close> loop of \<^verbatim>\<open>extractLatexError\<close>, left by
  \<^verbatim>\<open>break\<close> at the first line that starts with the marker. \<open>None\<close> is \<^verbatim>\<open>errorFound\<close>
  still false after the loop; otherwise the result holds \<^verbatim>\<open>userFriendlyError\<close> and
  \<^verbatim>\<open>errorLines\<close>.
\<close>

function scan_log :: "string list \<Rightarrow> nat \<Rightarrow> (string \<times> string list) option" where
  "scan_log lines i =
     (if i < length lines
      then (let line = lines ! i in
            if startsWith line ''!''
            then Some (classify line, slice lines i (min (i + 5) (length lines)))
            else scan_log lines (i + 1))
      else None)"
  by pat_completeness auto
termination
  by (relation "measure (\<lambda>(lines, i). length lines - i)") auto

declare scan_log.simps [simp del]

text \<open>
  \<^verbatim>\<open>extractLatexError\<close>, given what reading the log file gave: \<open>Inl m\<close> when
  \<^verbatim>\<open>fs.readFile\<close> rejected with message \<open>m\<close>, \<open>Inr logContent\<close> otherwise.
\<close>

definition extractLatexError :: "string + string \<Rightarrow> latex_error" where
  "extractLatexError rd =
     (case rd of
        Inl m \<Rightarrow>
          \<lparr>userFriendlyError = ''Failed to compile LaTeX document.'', errorDetails = m\<rparr>
      | Inr logContent \<Rightarrow>
          (let lines = split logContent [newline] in
           case scan_log lines 0 of
             None \<Rightarrow>
               (let meaningfulLines =
                      filter (\<lambda>l. trim l \<noteq> [] \<and> \<not> includes_str l ''*File List*'') lines
                in \<lparr>userFriendlyError = ''Compilation failed. Check LaTeX syntax.'',
                    errorDetails = join (slice_last 10 meaningfulLines)\<rparr>)
           | Some (msg, errorLines) \<Rightarrow>
               \<lparr>userFriendlyError = msg, errorDetails = join errorLines\<rparr>))"

section \<open>The fix requester\<close>

text \<open>
  \<^verbatim>\<open>s.replace(re, "")\<close> for a global regular expression that matches no empty string:
  \<open>m s\<close> is the length of the match of \<^verbatim>\<open>re\<close> that starts at the head of \<open>s\<close>, if there
  is one. Matches are taken from left to right and do not overlap.
\<close>

fun replace_all :: "(string \<Rightarrow> nat option) \<Rightarrow> string \<Rightarrow> string" where
  "replace_all m [] = []"
| "replace_all m (c # cs) =
     (case m (c # cs) of
        Some (Suc k) \<Rightarrow> replace_all m (drop k cs)
      | _ \<Rightarrow> c # replace_all m cs)"

text \<open>\<^verbatim>\<open>/```latex\n?/\<close> and \<^verbatim>\<open>/```\n?/\<close>: the optional line feed is taken when it is there.\<close>

definition fence_latex :: "string \<Rightarrow> nat option" where
  "fence_latex s =
     (if prefix ''```latex'' s
      then Some (if prefix (''```latex'' @ [newline]) s then 9 else 8)
      else None)"

definition fence :: "string \<Rightarrow> nat option" where
  "fence s =
     (if prefix ''```'' s
      then Some (if prefix (''```'' @ [newline]) s then 4 else 3)
      else None)"

text \<open>What \<^verbatim>\<open>fixLatexErrors\<close> does to \<^verbatim>\<open>response.content[0].text\<close>.\<close>

definition clean_response :: "string \<Rightarrow> string" where
  "clean_response text = replace_all fence (replace_all fence_latex (trim text))"

section \<open>Requests, the environment and the job's effects\<close>

text \<open>
  The request body is what \<^verbatim>\<open>express.json()\<close> parsed: an object, given by its
  properties. A number is given by an integer; the service only tests whether it is zero.
\<close>

datatype jsvalue =
    JNull
  | JBool bool
  | JNum int
  | JStr string
  | JArr "jsvalue list"
  | JObj "(string \<times> jsvalue) list"

text \<open>\<^verbatim>\<open>!v\<close> is false exactly for these values.\<close>

fun truthy :: "jsvalue \<Rightarrow> bool" where
  "truthy JNull = False"
| "truthy (JBool b) = b"
| "truthy (JNum n) = (n \<noteq> 0)"
| "truthy (JStr s) = (s \<noteq> [])"
| "truthy (JArr _) = True"
| "truthy (JObj _) = True"

type_synonym buffer = string

text \<open>
  Everything outside the process: what each call to the file system, to the compiler
  and to the completion service gives. A rejected promise is its error's message
  (\<open>exec_stderr\<close> is the \<^verbatim>\<open>stderr\<close> property of the error of a rejected compiler run).
  The calls of one compilation are indexed by the attempt and the source they are made
  with, the calls to \<^verbatim>\<open>fs.rm\<close> by how many were made before.
\<close>

record env =
  uuid :: string
  mkdir_res :: "string option"
  write_res :: "nat \<Rightarrow> jsvalue \<Rightarrow> string option"
  exec_res :: "nat \<Rightarrow> jsvalue \<Rightarrow> string option"
  exec_stderr :: "nat \<Rightarrow> jsvalue \<Rightarrow> string"
  pdf_exists :: "nat \<Rightarrow> jsvalue \<Rightarrow> bool"
  pdf_read :: "nat \<Rightarrow> jsvalue \<Rightarrow> string + buffer"
  log_read :: "nat \<Rightarrow> jsvalue \<Rightarrow> string + string"
  llm :: "nat \<Rightarrow> jsvalue \<Rightarrow> string \<Rightarrow> string + string"
  rm_res :: "nat \<Rightarrow> string option"

datatype event =
    EvMkdir
  | EvWriteTex nat
  | EvRunCompiler nat
  | EvFix nat
  | EvRm

text \<open>
  The job's footprint: whether its working directory exists, and the external calls made
  so far, oldest first.
\<close>

record world =
  dir_exists :: bool
  trace :: "event list"

definition log_event :: "event \<Rightarrow> world \<Rightarrow> world" where
  "log_event e w = w\<lparr>trace := trace w @ [e]\<rparr>"

text \<open>\<^verbatim>\<open>fs.mkdir(tempDir, { recursive: true })\<close>\<close>

definition fs_mkdir :: "env \<Rightarrow> world \<Rightarrow> string option \<times> world" where
  "fs_mkdir e w =
     (case mkdir_res e of
        None \<Rightarrow> (None, (log_event EvMkdir w)\<lparr>dir_exists := True\<rparr>)
      | Some m \<Rightarrow> (Some m, log_event EvMkdir w))"

text \<open>
  \<^verbatim>\<open>fs.rm(tempDir, { recursive: true, force: true })\<close>: when it rejects, the directory is
  left as it was.
\<close>

definition fs_rm :: "env \<Rightarrow> world \<Rightarrow> string option \<times> world" where
  "fs_rm e w =
     (case rm_res e (count_list (trace w) EvRm) of
        None \<Rightarrow> (None, (log_event EvRm w)\<lparr>dir_exists := False\<rparr>)
      | Some m \<Rightarrow> (Some m, log_event EvRm w))"

section \<open>The compiler invoker\<close>

text \<open>The message of the error \<^verbatim>\<open>compileLatex\<close> builds from the log.\<close>

definition failure_message :: "latex_error \<Rightarrow> string" where
  "failure_message r =
     userFriendlyError r
     @ (if errorDetails r \<noteq> [] then [newline, newline] @ ''Details: '' @ errorDetails r else [])"

text \<open>
  The \<^verbatim>\<open>catch (error)\<close> block of \<^verbatim>\<open>compileLatex\<close>: an error that already carries
  details is thrown again, any other one is replaced by what the log says.
\<close>

definition compile_catch :: "env \<Rightarrow> nat \<Rightarrow> jsvalue \<Rightarrow> string \<Rightarrow> string" where
  "compile_catch e k latex m =
     (if m \<noteq> [] \<and> includes_str m ''Details:'' then m
      else failure_message (extractLatexError (log_read e k latex)))"

text \<open>
  \<^verbatim>\<open>compileLatex(tempDir, texFile, latex)\<close> in attempt \<open>k\<close>: \<open>Inl m\<close> when it throws an
  error with message \<open>m\<close>, \<open>Inr pdf\<close> when it returns the artifact. The write of the source
  stands before the \<^verbatim>\<open>try\<close>, so its error leaves the function as it is.
\<close>

definition compileLatex :: "env \<Rightarrow> nat \<Rightarrow> jsvalue \<Rightarrow> world \<Rightarrow> (string + buffer) \<times> world" where
  "compileLatex e k latex w =
     (let w1 = log_event (EvWriteTex k) w in
      case write_res e k latex of
        Some m \<Rightarrow> (Inl m, w1)
      | None \<Rightarrow>
          (let w2 = log_event (EvRunCompiler k) w1 in
           case exec_res e k latex of
             Some m \<Rightarrow> (Inl (compile_catch e k latex m), w2)
           | None \<Rightarrow>
               if \<not> pdf_exists e k latex
               then (Inl (compile_catch e k latex
                            (failure_message (extractLatexError (log_read e k latex)))), w2)
               else (case pdf_read e k latex of
                       Inl m \<Rightarrow> (Inl (compile_catch e k latex m), w2)
                     | Inr pdf \<Rightarrow> (Inr pdf, w2))))"

text \<open>
  \<^verbatim>\<open>fixLatexErrors(latex, error)\<close> as call number \<open>k\<close>: the completion service answers
  with a text (\<open>Inr\<close>) or the call throws (\<open>Inl\<close>), and the error is thrown on.
\<close>

definition fixLatexErrors :: "env \<Rightarrow> nat \<Rightarrow> jsvalue \<Rightarrow> string \<Rightarrow> world \<Rightarrow> (string + string) \<times> world" where
  "fixLatexErrors e k latex err w =
     (case llm e k latex err of
        Inl m \<Rightarrow> (Inl m, log_event (EvFix k) w)
      | Inr text \<Rightarrow> (Inr (clean_response text), log_event (EvFix k) w))"

section \<open>The compile endpoint\<close>

definition MAX_ATTEMPTS :: nat where
  "MAX_ATTEMPTS = 3"

record error_response =
  error :: string
  details :: string
  jobId :: string
  attempts :: nat
  llmSuggestions :: "string option"

datatype response =
    Send_pdf string buffer nat bool
  | Json_400 string
  | Json_500 error_response
  | Json_500_internal string string string
  | Send_pdf_plain string buffer
  | Json_500_suggestion string string "string option" string

text \<open>
  \<open>Send_pdf job pdf n fixed\<close> is the 200 response with the artifact and the headers
  \<^verbatim>\<open>X-Job-Id\<close>, \<^verbatim>\<open>X-Compilation-Attempts\<close> and \<^verbatim>\<open>X-LLM-Fixed\<close>; \<open>Json_400 error\<close> is the
  rejection; \<open>Json_500\<close> is the report of a failed job; \<open>Json_500_internal error details
  job\<close> is the response of the outermost \<^verbatim>\<open>catch\<close>. The last two are the responses of
  \<^verbatim>\<open>server.js\<close>: \<open>Send_pdf_plain job pdf\<close> with the header \<^verbatim>\<open>X-Job-Id\<close> only, and
  \<open>Json_500_suggestion error details suggestion job\<close>.
\<close>

fun status :: "response \<Rightarrow> nat" where
  "status (Send_pdf _ _ _ _) = 200"
| "status (Json_400 _) = 400"
| "status (Json_500 _) = 500"
| "status (Json_500_internal _ _ _) = 500"
| "status (Send_pdf_plain _ _) = 200"
| "status (Json_500_suggestion _ _ _ _) = 500"

text \<open>
  How the \<^verbatim>\<open>for\<close> loop is left: by \<^verbatim>\<open>return res.send(pdfBuffer)\<close>, or by \<^verbatim>\<open>break\<close> or
  its condition with the values of \<^verbatim>\<open>lastError\<close> and \<^verbatim>\<open>llmSuggestions\<close> (\<open>None\<close> is
  \<^verbatim>\<open>null\<close>).
\<close>

datatype loop_exit =
    Returned response
  | Left "string option" "string option"

text \<open>
  The \<^verbatim>\<open>try\<close> block of the loop body: the compilation, the removal of the directory
  and the response. \<open>Inl m\<close> is an error with message \<open>m\<close> on its way to
  \<^verbatim>\<open>catch (compileError)\<close>; the removal stands inside the \<^verbatim>\<open>try\<close> without a handler
  of its own, so its error goes the same way. \<open>Inr r\<close> is \<^verbatim>\<open>return res.send(pdfBuffer)\<close>.
\<close>

definition try_attempt :: "env \<Rightarrow> nat \<Rightarrow> jsvalue \<Rightarrow> world \<Rightarrow> (string + response) \<times> world" where
  "try_attempt e attempt currentLatex w =
     (case compileLatex e attempt currentLatex w of
        (Inl m, w1) \<Rightarrow> (Inl m, w1)
      | (Inr pdfBuffer, w1) \<Rightarrow>
          (case fs_rm e w1 of
             (Some m, w2) \<Rightarrow> (Inl m, w2)
           | (None, w2) \<Rightarrow> (Inr (Send_pdf (uuid e) pdfBuffer attempt (attempt > 1)), w2)))"

text \<open>The \<^verbatim>\<open>for (let attempt = 1; attempt <= MAX_ATTEMPTS; attempt++)\<close> loop.\<close>

function retry_loop ::
  "env \<Rightarrow> bool \<Rightarrow> nat \<Rightarrow> jsvalue \<Rightarrow> string option \<Rightarrow> string option \<Rightarrow> world \<Rightarrow> loop_exit \<times> world"
where
  "retry_loop e autoFix attempt currentLatex lastError suggestions w =
     (if attempt \<le> MAX_ATTEMPTS
      then
        (case try_attempt e attempt currentLatex w of
           (Inr r, w1) \<Rightarrow> (Returned r, w1)
         | (Inl m, w1) \<Rightarrow>
             if \<not> autoFix \<or> attempt = MAX_ATTEMPTS
             then (Left (Some m) suggestions, w1)
             else (case fixLatexErrors e attempt currentLatex m w1 of
                     (Inr fixed, w2) \<Rightarrow>
                       retry_loop e autoFix (attempt + 1) (JStr fixed) (Some m)
                         (Some (''AI has attempted to fix the following issues:'' @ [newline]
                                @ hd (split m [newline])))
                         w2
                   | (Inl _, w2) \<Rightarrow>
                       (Left (Some m)
                          (Some ''AI assistance unavailable. Manual fixes required.''), w2)))
      else (Left lastError suggestions, w))"
  by pat_completeness auto
termination
  by (relation "measure (\<lambda>(e, autoFix, attempt, rest). Suc MAX_ATTEMPTS - attempt)") auto

declare retry_loop.simps [simp del]

text \<open>
  The outermost \<^verbatim>\<open>catch (error)\<close>: the removal is tried, its own error dropped, and the
  internal error is answered.
\<close>

definition outer_catch :: "env \<Rightarrow> string \<Rightarrow> world \<Rightarrow> response \<times> world" where
  "outer_catch e m w =
     (let (_, w') = fs_rm e w in (Json_500_internal ''Internal server error'' m (uuid e), w'))"

text \<open>
  The message of the \<^verbatim>\<open>TypeError\<close> that \<^verbatim>\<open>lastError.split\<close> throws when \<^verbatim>\<open>lastError\<close> is
  still \<^verbatim>\<open>null\<close>.
\<close>

definition null_split_message :: string where
  "null_split_message = ''Cannot read properties of null (reading '' @ quote # ''split'' @ quote # '')''"

text \<open>
  What follows the loop when no response was sent in it: the removal with its error
  dropped, then the report.
\<close>

definition report_failure :: "env \<Rightarrow> string option \<Rightarrow> string option \<Rightarrow> world \<Rightarrow> response \<times> world" where
  "report_failure e lastError suggestions w =
     (let (_, w1) = fs_rm e w in
      case lastError of
        None \<Rightarrow> outer_catch e null_split_message w1
      | Some m \<Rightarrow>
          (Json_500
             \<lparr>error = hd (split m [newline]),
              details = (if includes_str m ''Details:'' then trim (split m ''Details:'' ! 1) else m),
              jobId = uuid e,
              attempts = MAX_ATTEMPTS,
              llmSuggestions = suggestions\<rparr>, w1))"

text \<open>
  The handler of \<^verbatim>\<open>POST /compile\<close>. The working directory is named after a fresh
  identifier, so it does not exist when the request arrives. Sending a response is taken
  not to throw.
\<close>

definition compile_handler :: "env \<Rightarrow> (string \<rightharpoonup> jsvalue) \<Rightarrow> response \<times> world" where
  "compile_handler e body =
     (let w0 = \<lparr>dir_exists = False, trace = []\<rparr>;
          autoFix = (case body ''autoFix'' of None \<Rightarrow> True | Some v \<Rightarrow> truthy v)
      in case body ''latex'' of
           None \<Rightarrow> (Json_400 ''No LaTeX content provided'', w0)
         | Some originalLatex \<Rightarrow>
             if \<not> truthy originalLatex
             then (Json_400 ''No LaTeX content provided'', w0)
             else (case fs_mkdir e w0 of
                     (Some m, w1) \<Rightarrow> outer_catch e m w1
                   | (None, w1) \<Rightarrow>
                       (case retry_loop e autoFix 1 originalLatex None None w1 of
                          (Returned r, w2) \<Rightarrow> (r, w2)
                        | (Left lastError suggestions, w2) \<Rightarrow>
                            report_failure e lastError suggestions w2)))"

section \<open>The compile endpoint of server.js\<close>

text \<open>
  \<^verbatim>\<open>server.js\<close> answers \<^verbatim>\<open>POST /compile\<close> with one compilation and no fix loop, and reads
  the log in the handler itself, with the same loop over the lines.

  The \<^verbatim>\<open>catch (compileError)\<close> block, given the message and the \<^verbatim>\<open>stderr\<close> of the rejected
  run and what reading the log gave: the message of the error it throws.
\<close>

definition inline_log_error :: "string \<Rightarrow> string \<Rightarrow> string + string \<Rightarrow> string" where
  "inline_log_error message stderr rd =
     failure_message
       (case rd of
          Inl _ \<Rightarrow>
            \<lparr>userFriendlyError = ''Failed to compile LaTeX document.'',
             errorDetails = (if stderr \<noteq> [] then stderr else message)\<rparr>
        | Inr logContent \<Rightarrow>
            (let lines = split logContent [newline] in
             case scan_log lines 0 of
               None \<Rightarrow>
                 if includes_str message ''pdflatex: command not found''
                 then \<lparr>userFriendlyError = ''LaTeX is not properly installed on the server.'',
                       errorDetails = ''pdflatex is not installed on the server''\<rparr>
                 else
                   (let meaningfulLines =
                          filter (\<lambda>l. trim l \<noteq> [] \<and> \<not> includes_str l ''*File List*'') lines
                    in \<lparr>userFriendlyError = ''Compilation failed. Check LaTeX syntax.'',
                        errorDetails = join (slice_last 10 meaningfulLines)\<rparr>)
             | Some (msg, errorLines) \<Rightarrow>
                 \<lparr>userFriendlyError = msg, errorDetails = join errorLines\<rparr>))"

text \<open>The \<^verbatim>\<open>catch (error)\<close> block of the handler.\<close>

definition server_catch :: "env \<Rightarrow> string \<Rightarrow> world \<Rightarrow> response \<times> world" where
  "server_catch e m w =
     (let additionalInfo =
            (if includes_str m ''pdflatex''
             then ''Ensure pdflatex is installed on the server.''
             else if includes_str m ''undefined control sequence'' \<or> includes_str m ''Undefined control''
             then ''LaTeX syntax error: undefined command or package not included.''
             else if includes_str m ''Missing'' \<or> includes_str m ''missing''
             then ''LaTeX syntax error: missing bracket, brace, or $ delimiter.''
             else if includes_str m ''File'' \<and> includes_str m ''not found''
             then ''Missing LaTeX package or file. Ensure all required packages are included.''
             else []);
          (_, w') = fs_rm e w
      in (Json_500_suggestion
            (hd (split m [newline]))
            (if includes_str m ''Details:'' then trim (split m ''Details:'' ! 1) else m)
            (if additionalInfo \<noteq> [] then Some additionalInfo else None)
            (uuid e), w'))"

definition server_compile_handler :: "env \<Rightarrow> (string \<rightharpoonup> jsvalue) \<Rightarrow> response \<times> world" where
  "server_compile_handler e body =
     (let w0 = \<lparr>dir_exists = False, trace = []\<rparr>
      in case body ''latex'' of
           None \<Rightarrow> (Json_400 ''No LaTeX content provided'', w0)
         | Some latex \<Rightarrow>
             if \<not> truthy latex
             then (Json_400 ''No LaTeX content provided'', w0)
             else (case fs_mkdir e w0 of
                     (Some m, w1) \<Rightarrow> server_catch e m w1
                   | (None, w1) \<Rightarrow>
                       (let w2 = log_event (EvWriteTex 1) w1 in
                        case write_res e 1 latex of
                          Some m \<Rightarrow> server_catch e m w2
                        | None \<Rightarrow>
                            (let w3 = log_event (EvRunCompiler 1) w2 in
                             case exec_res e 1 latex of
                               Some m \<Rightarrow>
                                 server_catch e
                                   (inline_log_error m (exec_stderr e 1 latex) (log_read e 1 latex))
                                   w3
                             | None \<Rightarrow>
                                 if \<not> pdf_exists e 1 latex
                                 then server_catch e
                                        (''PDF generation failed. Check LaTeX syntax. ''
                                         @ take 500 (case log_read e 1 latex of
                                                       Inl _ \<Rightarrow> []
                                                     | Inr log \<Rightarrow> log))
                                        w3
                                 else (case pdf_read e 1 latex of
                                         Inl m \<Rightarrow> server_catch e m w3
                                       | Inr pdfBuffer \<Rightarrow>
                                           (case fs_rm e w3 of
                                              (Some m, w4) \<Rightarrow> server_catch e m w4
                                            | (None, w4) \<Rightarrow>
                                                (Send_pdf_plain (uuid e) pdfBuffer, w4)))))))"

section \<open>What is observed of a job\<close>

fun is_compiler_run :: "event \<Rightarrow> bool" where
  "is_compiler_run (EvRunCompiler _) = True"
| "is_compiler_run _ = False"

fun is_fix_call :: "event \<Rightarrow> bool" where
  "is_fix_call (EvFix _) = True"
| "is_fix_call _ = False"

definition compiler_runs :: "world \<Rightarrow> nat" where
  "compiler_runs w = length (filter is_compiler_run (trace w))"

definition fix_calls :: "world \<Rightarrow> nat" where
  "fix_calls w = length (filter is_fix_call (trace w))"




text \<open>A call that returned rather than threw.\<close>

definition succeeded :: "'a + 'b \<Rightarrow> bool" where
  "succeeded r = (case r of Inl _ \<Rightarrow> False | Inr _ \<Rightarrow> True)"

text \<open>The lines of a log that start with the error marker.\<close>

definition is_error_line :: "string \<Rightarrow> bool" where
  "is_error_line l = startsWith l ''!''"

text \<open>
  The excerpt as the specification words it, to compare with \<^verbatim>\<open>errorDetails\<close>: the last
  \<open>n\<close> non-empty lines of the log.
\<close>

definition last_nonempty_lines :: "nat \<Rightarrow> string \<Rightarrow> string" where
  "last_nonempty_lines n logContent =
     join (slice_last n (filter (\<lambda>l. l \<noteq> []) (split logContent [newline])))"

text \<open>
  Stripping a marker, said without the regular expression, to compare with the two
  \<^verbatim>\<open>replace\<close> calls: the text is cut at every occurrence of the marker, from left to right;
  a line feed that stands right after a marker goes with it; the pieces are put together.
\<close>

definition drop_newline :: "string \<Rightarrow> string" where
  "drop_newline s = (case s of [] \<Rightarrow> [] | c # cs \<Rightarrow> if c = newline then cs else c # cs)"

definition without_marker :: "string \<Rightarrow> string \<Rightarrow> string" where
  "without_marker marker s =
     (case split s marker of
        [] \<Rightarrow> []
      | p # ps \<Rightarrow> p @ concat (map drop_newline ps))"

section \<open>Sample environments and requests\<close>

text \<open>An environment in which every call succeeds and the compiler produces the artifact.\<close>

definition good_env :: env where
  "good_env =
     \<lparr>uuid = ''job-1'',
      mkdir_res = None,
      write_res = (\<lambda>_ _. None),
      exec_res = (\<lambda>_ _. None),
      exec_stderr = (\<lambda>_ _. []),
      pdf_exists = (\<lambda>_ _. True),
      pdf_read = (\<lambda>_ _. Inr ''%PDF''),
      log_read = (\<lambda>_ _. Inr (''(./document.tex'' @ newline # ''! Undefined control sequence.''
                               @ newline # ''l.3 x'')),
      llm = (\<lambda>_ _ _. Inr (''```latex'' @ newline # ''fixed'' @ newline # ''```'')),
      rm_res = (\<lambda>_. None)\<rparr>"

text \<open>The compiler exits with an error and leaves no artifact, whatever the source.\<close>

definition failing_env :: env where
  "failing_env =
     good_env\<lparr>exec_res := (\<lambda>_ _. Some ''Command failed: pdflatex''),
              pdf_exists := (\<lambda>_ _. False)\<rparr>"

text \<open>Every removal of the working directory is refused.\<close>

definition busy_env :: env where
  "busy_env = good_env\<lparr>rm_res := (\<lambda>_. Some ''EBUSY: resource busy or locked'')\<rparr>"

text \<open>The compiler run is rejected although an artifact file is in the directory.\<close>

definition stale_env :: env where
  "stale_env = good_env\<lparr>exec_res := (\<lambda>_ _. Some ''Command failed: pdflatex'')\<rparr>"

text \<open>The compiler exits with zero and leaves no artifact.\<close>

definition silent_env :: env where
  "silent_env = good_env\<lparr>pdf_exists := (\<lambda>_ _. False)\<rparr>"

text \<open>The job's footprint when the loop is entered: the directory was created.\<close>

definition first_world :: world where
  "first_world = \<lparr>dir_exists = True, trace = [EvMkdir]\<rparr>"

text \<open>Logs: two errors, no error with a file list, and a typical one.\<close>

definition two_error_log :: string where
  "two_error_log = ''! Missing $ inserted.'' @ newline # ''! Undefined control sequence.''"

definition file_list_log :: string where
  "file_list_log = ''a'' @ newline # '' *File List*''"

definition noisy_log :: string where
  "noisy_log =
     ''This is pdfTeX, Version 3.14159265'' @ newline # ''(./document.tex'' @ newline
     # ''! Undefined control sequence.'' @ newline # ''l.3 x'' @ newline # ''! Emergency stop.''"

text \<open>The usual answer of the completion service: the source inside a fenced block.\<close>

definition fenced_reply :: string where
  "fenced_reply = ''```latex'' @ newline # ''fixed'' @ newline # ''```''"

definition plain_request :: "string \<rightharpoonup> jsvalue" where
  "plain_request = [''latex'' \<mapsto> JStr ''x'']"

definition no_fix_request :: "string \<rightharpoonup> jsvalue" where
  "no_fix_request = [''latex'' \<mapsto> JStr ''x'', ''autoFix'' \<mapsto> JBool False]"

section \<open>Auxiliary facts\<close>

text \<open>
  The array indexing of the handlers stays in range: a split has a first piece, and a
  second one when the separator occurs.
\<close>

lemma split_nonempty: "split_from sep cur s \<noteq> []"
  by (induction s arbitrary: cur) auto

lemma split_at_separator:
  assumes "sep \<noteq> []" and "includes_str m sep"
  shows "1 < length (split_from sep cur m)"
  using assms(2)
proof (induction m arbitrary: cur)
  case Nil
  with assms(1) show ?case by simp
next
  case (Cons c cs)
  show ?case
  proof (cases "prefix sep (c # cs)")
    case True
    with assms(1) split_nonempty [of sep "[]" "drop (length sep - 1) cs"] show ?thesis
      by (cases "split_from sep [] (drop (length sep - 1) cs)") simp_all
  next
    case False
    with Cons.prems have "includes_str cs sep" by simp
    from Cons.IH [OF this] False show ?thesis by simp
  qed
qed

subsection \<open>The external calls of each step\<close>

lemma compileLatex_calls:
  assumes "compileLatex e k l w = (r, w')"
  shows "compiler_runs w' \<le> Suc (compiler_runs w) \<and> fix_calls w' = fix_calls w"
  using assms
  by (auto simp: compileLatex_def Let_def log_event_def compiler_runs_def fix_calls_def
           split: option.splits if_splits sum.splits)

lemma fs_rm_calls:
  assumes "fs_rm e w = (r, w')"
  shows "compiler_runs w' = compiler_runs w \<and> fix_calls w' = fix_calls w"
  using assms
  by (auto simp: fs_rm_def log_event_def compiler_runs_def fix_calls_def split: option.splits)

lemma fs_mkdir_calls:
  assumes "fs_mkdir e w = (r, w')"
  shows "compiler_runs w' = compiler_runs w \<and> fix_calls w' = fix_calls w"
  using assms
  by (auto simp: fs_mkdir_def log_event_def compiler_runs_def fix_calls_def split: option.splits)

lemma fixLatexErrors_calls:
  assumes "fixLatexErrors e k l m w = (r, w')"
  shows "compiler_runs w' = compiler_runs w \<and> fix_calls w' = Suc (fix_calls w)"
  using assms
  by (auto simp: fixLatexErrors_def log_event_def compiler_runs_def fix_calls_def split: sum.splits)

lemma try_attempt_calls:
  assumes "try_attempt e k l w = (r, w')"
  shows "compiler_runs w' \<le> Suc (compiler_runs w) \<and> fix_calls w' = fix_calls w"
proof -
  obtain cr wc where c: "compileLatex e k l w = (cr, wc)" by (cases "compileLatex e k l w")
  obtain rr wr where r: "fs_rm e wc = (rr, wr)" by (cases "fs_rm e wc")
  from assms c r compileLatex_calls [OF c] fs_rm_calls [OF r] show ?thesis
    by (auto simp: try_attempt_def split: sum.splits option.splits)
qed

lemma retry_loop_calls:
  "retry_loop e af a cl le sg w = (x, w') \<Longrightarrow>
     compiler_runs w' \<le> compiler_runs w + (Suc MAX_ATTEMPTS - a) \<and>
     fix_calls w' \<le> fix_calls w + (MAX_ATTEMPTS - a)"
proof (induction e af a cl le sg w arbitrary: x w' rule: retry_loop.induct)
  case (1 e af a cl le sg w)
  show ?case
  proof (cases "a \<le> MAX_ATTEMPTS")
    case False
    with "1.prems" show ?thesis by (simp add: retry_loop.simps)
  next
    case inrange: True
    obtain tr wt where t: "try_attempt e a cl w = (tr, wt)" by (cases "try_attempt e a cl w")
    note tc = try_attempt_calls [OF t]
    show ?thesis
    proof (cases tr)
      case (Inr r)
      with "1.prems" inrange t have "w' = wt" by (simp add: retry_loop.simps)
      with tc inrange show ?thesis by arith
    next
      case (Inl m)
      show ?thesis
      proof (cases "\<not> af \<or> a = MAX_ATTEMPTS")
        case True
        with "1.prems" inrange t Inl have "w' = wt" by (auto simp add: retry_loop.simps)
        with tc inrange show ?thesis by arith
      next
        case False
        obtain fr wf where f: "fixLatexErrors e a cl m wt = (fr, wf)"
          by (cases "fixLatexErrors e a cl m wt")
        note fc = fixLatexErrors_calls [OF f]
        show ?thesis
        proof (cases fr)
          case (Inl m')
          with "1.prems" inrange t \<open>tr = Inl m\<close> False f have "w' = wf"
            by (auto simp add: retry_loop.simps)
          with tc fc inrange False show ?thesis by auto
        next
          case (Inr fixed)
          from "1.prems" inrange t \<open>tr = Inl m\<close> False f Inr
          have rec: "retry_loop e af (a + 1) (JStr fixed) (Some m)
                 (Some (''AI has attempted to fix the following issues:'' @ [newline]
                        @ hd (split m [newline]))) wf = (x, w')"
            by (simp add: retry_loop.simps [of e af a])
          from "1.IH" [OF inrange t [symmetric] \<open>tr = Inl m\<close> False f [symmetric] Inr rec]
          have "compiler_runs w' \<le> compiler_runs wf + (Suc MAX_ATTEMPTS - (a + 1)) \<and>
                fix_calls w' \<le> fix_calls wf + (MAX_ATTEMPTS - (a + 1))" .
          with tc fc inrange False show ?thesis by arith
        qed
      qed
    qed
  qed
qed

lemma outer_catch_calls:
  assumes "outer_catch e m w = (r, w')"
  shows "compiler_runs w' = compiler_runs w \<and> fix_calls w' = fix_calls w"
proof -
  obtain rr wr where r: "fs_rm e w = (rr, wr)" by (cases "fs_rm e w")
  from assms r fs_rm_calls [OF r] show ?thesis by (simp add: outer_catch_def)
qed

lemma report_failure_calls:
  assumes "report_failure e le sg w = (r, w')"
  shows "compiler_runs w' = compiler_runs w \<and> fix_calls w' = fix_calls w"
proof -
  obtain rr wr where r: "fs_rm e w = (rr, wr)" by (cases "fs_rm e w")
  obtain oc wo where o: "outer_catch e null_split_message wr = (oc, wo)"
    by (cases "outer_catch e null_split_message wr")
  from assms r o fs_rm_calls [OF r] outer_catch_calls [OF o] show ?thesis
    by (auto simp add: report_failure_def split: option.splits)
qed

subsection \<open>Falsy values\<close>

lemma falsy_values: "\<not> truthy v \<longleftrightarrow> v \<in> {JNull, JBool False, JNum 0, JStr []}"
  by (cases v) auto

subsection \<open>The working directory along the job\<close>

lemma compileLatex_trace:
  "trace (snd (compileLatex e k l w)) =
     trace w @ (if write_res e k l = None then [EvWriteTex k, EvRunCompiler k] else [EvWriteTex k])"
  by (auto simp: compileLatex_def Let_def log_event_def split: option.splits sum.splits)









subsection \<open>The loop over the lines stops at the first error line\<close>

lemma slice_five:
  assumes "i < length xs"
  shows "slice xs i (min (i + 5) (length xs)) = take 5 (drop i xs)"
proof -
  have "min (min (i + 5) (length xs)) (length xs) - i = min 5 (length (drop i xs))"
    using assms by auto
  then show ?thesis by (simp add: slice_def min_def)
qed

lemma scan_log_find:
  "scan_log lines i =
     (case find is_error_line (drop i lines) of
        None \<Rightarrow> None
      | Some l \<Rightarrow> Some (classify l, take 5 (dropWhile (\<lambda>l. \<not> is_error_line l) (drop i lines))))"
  unfolding is_error_line_def
proof (induction lines i rule: scan_log.induct)
  case (1 lines i)
  show ?case
  proof (cases "i < length lines")
    case False
    then show ?thesis by (simp add: scan_log.simps)
  next
    case True
    then have d: "drop i lines = lines ! i # drop (Suc i) lines"
      by (simp add: Cons_nth_drop_Suc)
    show ?thesis
    proof (cases "startsWith (lines ! i) ''!''")
      case hit: True
      have "scan_log lines i = Some (classify (lines ! i), slice lines i (min (i + 5) (length lines)))"
        using True hit by (simp add: scan_log.simps)
      also have "slice lines i (min (i + 5) (length lines)) = take 5 (drop i lines)"
        using True by (rule slice_five)
      finally show ?thesis using hit d by simp
    next
      case miss: False
      have "scan_log lines i = scan_log lines (i + 1)"
        using True miss by (simp add: scan_log.simps)
      also have "\<dots> = (case find (\<lambda>l. startsWith l ''!'') (drop (i + 1) lines) of
        None \<Rightarrow> None
      | Some l \<Rightarrow> Some (classify l, take 5 (dropWhile (\<lambda>l. \<not> startsWith l ''!'') (drop (i + 1) lines))))"
        using "1.IH" [OF True refl miss] .
      finally show ?thesis using miss d by (simp cong: option.case_cong)
    qed
  qed
qed

subsection \<open>The first line of an error message\<close>

lemma split_from_line:
  assumes "newline \<notin> set a"
  shows "split_from [newline] cur (a @ newline # rest) = (cur @ a) # split_from [newline] [] rest"
  using assms by (induction a arbitrary: cur) auto

lemma split_from_last_line:
  assumes "newline \<notin> set a"
  shows "split_from [newline] cur a = [cur @ a]"
  using assms by (induction a arbitrary: cur) auto

lemma first_line_of_failure_message:
  assumes "newline \<notin> set (userFriendlyError r)"
  shows "hd (split (failure_message r) [newline]) = userFriendlyError r"
proof (cases "errorDetails r = []")
  case True
  with split_from_last_line [OF assms, of "[]"] show ?thesis
    by (simp add: failure_message_def split_def)
next
  case False
  with split_from_line [OF assms, of "[]" "newline # ''Details: '' @ errorDetails r"]
  show ?thesis by (simp add: failure_message_def split_def)
qed

lemma inline_log_error_found:
  assumes "find is_error_line (split log [newline]) = Some line"
  shows "inline_log_error m err (Inr log) =
           failure_message \<lparr>userFriendlyError = classify line,
              errorDetails = join (take 5 (dropWhile (\<lambda>l. \<not> is_error_line l) (split log [newline])))\<rparr>"
  using assms by (simp add: inline_log_error_def scan_log_find)

subsection \<open>Removing the fences\<close>

lemma includes_str_sublist: "includes_str s p \<longleftrightarrow> sublist p s"
  by (induction s) (simp_all add: sublist_Cons_right)

lemma replace_fence_miss:
  assumes "\<not> prefix ''```'' (c # cs)"
  shows "replace_all fence (c # cs) = c # replace_all fence cs"
proof -
  from assms have "fence (c # cs) = None" by (simp only: fence_def if_False)
  then show ?thesis by simp
qed

lemma replace_fence_hit:
  assumes "prefix ''```'' (c # cs)"
  shows "\<exists>k. replace_all fence (c # cs) = replace_all fence (drop k cs)"
proof -
  from assms have "fence (c # cs) = Some (Suc 2) \<or> fence (c # cs) = Some (Suc 3)"
    by (simp only: fence_def if_True) (simp add: numeral_eq_Suc)
  then show ?thesis by auto
qed

lemma replace_fence_head:
  assumes "\<not> prefix ''`'' s"
  shows "\<not> prefix ''`'' (replace_all fence s)"
proof (cases s)
  case Nil
  then show ?thesis by simp
next
  case (Cons c cs)
  with assms have "c \<noteq> CHR 0x60" by simp
  with Cons show ?thesis by (simp add: fence_def)
qed

lemma replace_fence_no_new_marker:
  assumes miss: "\<not> prefix ''```'' (c # cs)"
  shows "\<not> prefix ''```'' (c # replace_all fence cs)"
proof
  assume hit: "prefix ''```'' (c # replace_all fence cs)"
  then have c: "c = CHR 0x60" and r: "prefix ''``'' (replace_all fence cs)" by auto
  from r have "prefix ''`'' (replace_all fence cs)" by (auto simp: prefix_def)
  with replace_fence_head [of cs] have "prefix ''`'' cs" by blast
  then obtain cs' where cs: "cs = CHR 0x60 # cs'" by (auto simp: prefix_def)
  with miss c have m2: "\<not> prefix ''`'' cs'" by (auto simp: prefix_def)
  then have "\<not> prefix ''```'' cs" using cs by (auto simp: prefix_def)
  with cs have "replace_all fence cs = CHR 0x60 # replace_all fence cs'"
    using replace_fence_miss [of "CHR 0x60" cs'] by simp
  with r have "prefix ''`'' (replace_all fence cs')" by simp
  with replace_fence_head [OF m2] show False by blast
qed

lemma replace_fence_clean: "\<not> includes_str (replace_all fence s) ''```''"
proof (induction s rule: length_induct)
  case (1 s)
  show ?case
  proof (cases s)
    case Nil
    then show ?thesis by simp
  next
    case (Cons c cs)
    show ?thesis
    proof (cases "prefix ''```'' (c # cs)")
      case True
      from replace_fence_hit [OF True] obtain k
        where k: "replace_all fence (c # cs) = replace_all fence (drop k cs)" ..
      have "length (drop k cs) < length s" using Cons by simp
      with "1.IH" k Cons show ?thesis by simp
    next
      case False
      have "length cs < length s" using Cons by simp
      with "1.IH" have "\<not> includes_str (replace_all fence cs) ''```''" by blast
      with replace_fence_no_new_marker [OF False] replace_fence_miss [OF False] Cons
      show ?thesis by simp
    qed
  qed
qed

lemma replace_fence_id:
  "\<not> includes_str s ''```'' \<Longrightarrow> replace_all fence s = s"
proof (induction s)
  case Nil
  then show ?case by simp
next
  case (Cons c cs)
  then have "\<not> prefix ''```'' (c # cs)" and "replace_all fence cs = cs" by simp_all
  with replace_fence_miss [of c cs] show ?case by simp
qed

lemma fence_latex_marker: "prefix ''```latex'' s \<Longrightarrow> prefix ''```'' s"
  by (auto simp: prefix_def)

lemma replace_fence_latex_id:
  "\<not> includes_str s ''```'' \<Longrightarrow> replace_all fence_latex s = s"
proof (induction s)
  case Nil
  then show ?case by simp
next
  case (Cons c cs)
  then have m: "\<not> prefix ''```'' (c # cs)" and r: "replace_all fence_latex cs = cs" by simp_all
  from m fence_latex_marker [of "c # cs"] have "\<not> prefix ''```latex'' (c # cs)" by blast
  then have "fence_latex (c # cs) = None" by (simp only: fence_latex_def if_False)
  with r show ?case by simp
qed

subsection \<open>The replaces cut the text at the markers\<close>

lemma split_from_cur:
  "split_from mk cur s = (cur @ hd (split_from mk [] s)) # tl (split_from mk [] s)"
proof (induction s arbitrary: cur rule: length_induct)
  case (1 s)
  show ?case
  proof (cases s)
    case Nil
    then show ?thesis by simp
  next
    case (Cons c cs)
    show ?thesis
    proof (cases "mk \<noteq> [] \<and> prefix mk (c # cs)")
      case True
      with Cons show ?thesis by simp
    next
      case False
      have l: "length cs < length s" using Cons by simp
      from "1.IH" l have a: "split_from mk (cur @ [c]) cs =
          ((cur @ [c]) @ hd (split_from mk [] cs)) # tl (split_from mk [] cs)" by blast
      from "1.IH" l have b: "split_from mk [c] cs =
          ([c] @ hd (split_from mk [] cs)) # tl (split_from mk [] cs)" by blast
      from False Cons have "split_from mk cur s = split_from mk (cur @ [c]) cs" by auto
      moreover from False Cons have "split_from mk [] s = split_from mk [c] cs" by auto
      ultimately show ?thesis using a b by simp
    qed
  qed
qed

lemma first_piece_head:
  assumes "mk \<noteq> []" and "s = [] \<or> hd s \<noteq> newline"
  shows "drop_newline (hd (split_from mk [] s)) = hd (split_from mk [] s)"
proof (cases s)
  case Nil
  then show ?thesis by (simp add: drop_newline_def)
next
  case (Cons c cs)
  with assms have c: "c \<noteq> newline" by simp
  show ?thesis
  proof (cases "prefix mk (c # cs)")
    case True
    with assms Cons show ?thesis by (simp add: drop_newline_def)
  next
    case False
    with Cons have "split_from mk [] s = split_from mk [c] cs" by simp
    with split_from_cur [of mk "[c]" cs] c show ?thesis by (simp add: drop_newline_def)
  qed
qed

lemma replace_all_without_marker:
  assumes mk: "mk \<noteq> []" "hd mk \<noteq> newline"
      and m: "\<And>s. m s = (if prefix mk s
                          then Some (if prefix (mk @ [newline]) s then Suc (length mk) else length mk)
                          else None)"
  shows "replace_all m s = without_marker mk s"
proof (induction s rule: length_induct)
  case (1 s)
  show ?case
  proof (cases s)
    case Nil
    then show ?thesis by (simp add: without_marker_def split_def)
  next
    case (Cons c cs)
    show ?thesis
    proof (cases "prefix mk (c # cs)")
      case False
      have l: "length cs < length s" using Cons by simp
      with "1.IH" have ih: "replace_all m cs = without_marker mk cs" by blast
      from False m [of "c # cs"] have "replace_all m (c # cs) = c # replace_all m cs" by simp
      moreover from False have "split_from mk [] (c # cs) = split_from mk [c] cs" by simp
      ultimately show ?thesis using ih Cons split_from_cur [of mk "[c]" cs]
        by (simp add: without_marker_def split_def)
          (cases "split_from mk [] cs", simp_all add: split_nonempty)
    next
      case True
      with mk obtain mk' zs where mk': "mk = c # mk'" and cs: "cs = mk' @ zs"
        by (cases mk) (auto simp: prefix_def)
      have sp: "split_from mk [] (c # cs) = [] # split_from mk [] zs"
        using True mk' cs by simp
      then have w: "without_marker mk s = concat (map drop_newline (split_from mk [] zs))"
        using Cons by (simp add: without_marker_def split_def)
      have lz: "length zs < length s" using Cons cs by simp
      show ?thesis
      proof (cases "prefix (mk @ [newline]) (c # cs)")
        case nl: True
        with mk' cs obtain r where r: "zs = newline # r" by (auto simp: prefix_def)
        from nl True m [of "c # cs"] have "m (c # cs) = Some (Suc (length mk))" by simp
        then have "replace_all m (c # cs) = replace_all m (drop (length mk) cs)" by simp
        also have "drop (length mk) cs = r" using mk' cs r by simp
        finally have a: "replace_all m (c # cs) = replace_all m r" .
        have "length r < length s" using lz r by simp
        with "1.IH" have b: "replace_all m r = without_marker mk r" by blast
        have "\<not> prefix mk (newline # r)" using mk by (cases mk) auto
        then have "split_from mk [] (newline # r) = split_from mk [newline] r" by simp
        with split_from_cur [of mk "[newline]" r]
        have "concat (map drop_newline (split_from mk [] (newline # r))) = without_marker mk r"
          by (cases "split_from mk [] r")
             (simp_all add: split_nonempty without_marker_def split_def drop_newline_def)
        with a b w r Cons show ?thesis by simp
      next
        case nonl: False
        with True m [of "c # cs"] have "m (c # cs) = Some (Suc (length mk'))" using mk' by simp
        then have "replace_all m (c # cs) = replace_all m (drop (length mk') cs)" by simp
        also have "drop (length mk') cs = zs" using cs by simp
        finally have a: "replace_all m (c # cs) = replace_all m zs" .
        from "1.IH" lz have b: "replace_all m zs = without_marker mk zs" by blast
        from nonl mk' cs have "zs = [] \<or> hd zs \<noteq> newline"
          by (cases zs) auto
        with first_piece_head [OF mk(1), of zs]
        have "concat (map drop_newline (split_from mk [] zs)) = without_marker mk zs"
          by (cases "split_from mk [] zs")
             (simp_all add: split_nonempty without_marker_def split_def)
        with a b w Cons show ?thesis by simp
      qed
    qed
  qed
qed

lemma replace_fence_without_marker: "replace_all fence s = without_marker ''```'' s"
  by (rule replace_all_without_marker) (simp_all add: fence_def newline_def)

lemma replace_fence_latex_without_marker:
  "replace_all fence_latex s = without_marker ''```latex'' s"
  by (rule replace_all_without_marker) (simp_all add: fence_latex_def newline_def)

lemma replace_all_skip:
  assumes "\<And>s. m s \<noteq> None \<Longrightarrow> prefix ''`'' s" and "CHR 0x60 \<notin> set a"
  shows "replace_all m (a @ t) = a @ replace_all m t"
  using assms(2)
proof (induction a)
  case Nil
  then show ?case by simp
next
  case (Cons c a)
  then have "\<not> prefix ''`'' (c # a @ t)" by simp
  with assms(1) [of "c # a @ t"] have "m (c # a @ t) = None" by blast
  with Cons show ?case by simp
qed

lemma fence_needs_backtick: "fence s \<noteq> None \<Longrightarrow> prefix ''`'' s"
  by (auto simp: fence_def prefix_def split: if_splits)

lemma fence_latex_needs_backtick: "fence_latex s \<noteq> None \<Longrightarrow> prefix ''`'' s"
  by (auto simp: fence_latex_def prefix_def split: if_splits)

subsection \<open>Trimming\<close>

lemma last_dropWhile: "dropWhile P xs \<noteq> [] \<Longrightarrow> last (dropWhile P xs) = last xs"
  by (induction xs) auto

lemma trim_ends:
  "trim s = [] \<or> (\<not> is_space (hd (trim s)) \<and> \<not> is_space (last (trim s)))"
proof (cases "trim s = []")
  case True
  then show ?thesis by simp
next
  case False
  let ?u = "dropWhile is_space s"
  let ?v = "dropWhile is_space (rev ?u)"
  from False have v: "?v \<noteq> []" by (simp add: trim_def)
  have u: "?u \<noteq> []"
  proof
    assume "?u = []"
    with v show False by simp
  qed
  have "last (trim s) = hd ?v" by (simp add: trim_def last_rev)
  with hd_dropWhile [OF v] have l: "\<not> is_space (last (trim s))" by simp
  have "hd (trim s) = last ?v" by (simp add: trim_def hd_rev)
  also have "\<dots> = last (rev ?u)" using v by (rule last_dropWhile)
  also have "\<dots> = hd ?u" by (simp add: last_rev)
  finally have "\<not> is_space (hd (trim s))" using hd_dropWhile [OF u] by simp
  with l show ?thesis by simp
qed

lemma trim_sublist: "sublist (trim s) s"
proof -
  have "suffix (dropWhile is_space (rev (dropWhile is_space s))) (rev (dropWhile is_space s))"
    by (rule suffix_dropWhile)
  then have "sublist (dropWhile is_space (rev (dropWhile is_space s))) (rev (dropWhile is_space s))"
    by (rule suffix_imp_sublist)
  then have "sublist (trim s) (dropWhile is_space s)"
    by (simp add: trim_def sublist_rev_left)
  moreover have "sublist (dropWhile is_space s) s"
    by (rule suffix_imp_sublist) (rule suffix_dropWhile)
  ultimately show ?thesis by (rule sublist_order.order_trans)
qed

subsection \<open>A reply that is one fenced block\<close>

lemma trim_fenced:
  "trim (''```latex'' @ newline # body @ newline # ''```'') =
     ''```latex'' @ newline # body @ newline # ''```''"
proof -
  let ?s = "''```latex'' @ newline # body @ newline # ''```''"
  have a: "dropWhile is_space ?s = ?s" by (simp add: is_space_def)
  have "rev ?s = ''```'' @ rev (''```latex'' @ newline # body @ [newline])" by simp
  then have "dropWhile is_space (rev ?s) = rev ?s" by (simp add: is_space_def)
  with a show ?thesis by (simp only: trim_def rev_rev_ident)
qed

lemma clean_fenced:
  assumes "CHR 0x60 \<notin> set body"
  shows "clean_response (''```latex'' @ newline # body @ newline # ''```'') = body @ [newline]"
proof -
  have "fence_latex (''```latex'' @ newline # body @ newline # ''```'') = Some 9"
    by (simp add: fence_latex_def)
  then have "replace_all fence_latex (''```latex'' @ newline # body @ newline # ''```'') =
        replace_all fence_latex (body @ newline # ''```'')"
    by (simp add: numeral_eq_Suc)
  also have "\<dots> = body @ replace_all fence_latex (newline # ''```'')"
    using fence_latex_needs_backtick assms by (rule replace_all_skip)
  also have "replace_all fence_latex (newline # ''```'') = newline # ''```''"
    by (simp add: fence_latex_def newline_def)
  finally have one: "replace_all fence_latex (''```latex'' @ newline # body @ newline # ''```'') =
        body @ newline # ''```''" .
  have "replace_all fence (body @ newline # ''```'') = body @ replace_all fence (newline # ''```'')"
    using fence_needs_backtick assms by (rule replace_all_skip)
  also have "replace_all fence (newline # ''```'') = [newline]"
    by (simp add: fence_def newline_def numeral_eq_Suc)
  finally show ?thesis using one trim_fenced [of body]
    by (simp only: clean_response_def)
qed

section \<open>The attempt ceiling\<close>

text \<open>
  C1. Whatever the request and whatever the compiler, the file system and the fix service
  do, a job runs the compiler at most \<open>MAX_ATTEMPTS = 3\<close> times and calls the fix service
  at most \<open>MAX_ATTEMPTS - 1 = 2\<close> times, at most \<open>2 * MAX_ATTEMPTS - 1\<close> external calls in
  all. The handler is a total function (the loop's termination is proved with its
  definition), so it always reaches its response.
\<close>

theorem external_calls_bounded:
  "compiler_runs (snd (compile_handler e body)) \<le> MAX_ATTEMPTS \<and>
   fix_calls (snd (compile_handler e body)) \<le> MAX_ATTEMPTS - 1 \<and>
   compiler_runs (snd (compile_handler e body)) + fix_calls (snd (compile_handler e body))
     \<le> 2 * MAX_ATTEMPTS - 1 \<and>
   MAX_ATTEMPTS = 3"
proof -
  let ?w = "snd (compile_handler e body)"
  have "compiler_runs ?w \<le> MAX_ATTEMPTS \<and> fix_calls ?w \<le> MAX_ATTEMPTS - 1"
  proof (cases "body ''latex''")
    case None
    then show ?thesis by (simp add: compile_handler_def compiler_runs_def fix_calls_def)
  next
    case (Some v)
    show ?thesis
    proof (cases "truthy v")
      case False
      with Some show ?thesis by (simp add: compile_handler_def compiler_runs_def fix_calls_def)
    next
      case True
      let ?w0 = "\<lparr>dir_exists = False, trace = []\<rparr>"
      obtain mr w1 where m: "fs_mkdir e ?w0 = (mr, w1)" by (cases "fs_mkdir e ?w0")
      from fs_mkdir_calls [OF m] have w1: "compiler_runs w1 = 0" "fix_calls w1 = 0"
        by (simp_all add: compiler_runs_def fix_calls_def)
      show ?thesis
      proof (cases mr)
        case (Some msg)
        obtain rr wr where r: "fs_rm e w1 = (rr, wr)" by (cases "fs_rm e w1")
        from fs_rm_calls [OF r] w1 \<open>body ''latex'' = Some v\<close> True m Some r show ?thesis
          by (simp add: compile_handler_def outer_catch_def)
      next
        case None
        obtain x w2 where l: "retry_loop e (case body ''autoFix'' of None \<Rightarrow> True | Some v \<Rightarrow> truthy v)
                                 1 v None None w1 = (x, w2)"
          by (cases "retry_loop e (case body ''autoFix'' of None \<Rightarrow> True | Some v \<Rightarrow> truthy v)
                       1 v None None w1")
        from retry_loop_calls [OF l] w1
        have w2: "compiler_runs w2 \<le> MAX_ATTEMPTS" "fix_calls w2 \<le> MAX_ATTEMPTS - 1" by simp_all
        show ?thesis
        proof (cases x)
          case (Returned r)
          with w2 \<open>body ''latex'' = Some v\<close> True m None l show ?thesis
            by (simp add: compile_handler_def)
        next
          case (Left le sg)
          obtain r w3 where rf: "report_failure e le sg w2 = (r, w3)"
            by (cases "report_failure e le sg w2")
          from report_failure_calls [OF rf] w2 \<open>body ''latex'' = Some v\<close> True m None l Left rf
          show ?thesis by (simp add: compile_handler_def)
        qed
      qed
    qed
  qed
  then show ?thesis by (simp add: MAX_ATTEMPTS_def)
qed

text \<open>The ceiling is reached when every compilation fails and every fix is delivered.\<close>

lemma ceiling_reached:
  "compiler_runs (snd (compile_handler failing_env plain_request)) = 3 \<and>
   fix_calls (snd (compile_handler failing_env plain_request)) = 2"
  by code_simp

section \<open>Fixing disabled\<close>

text \<open>
  C2. A request whose fix flag is falsy and whose source, once written, fails to compile at
  the first attempt: the compiler ran once, the fix service was not called and a 500
  report without suggestions is sent. The report carries the constant \<open>MAX_ATTEMPTS\<close> in
  its \<^verbatim>\<open>attempts\<close> field, not the one attempt that was made.
\<close>

theorem no_fix_single_attempt:
  assumes latex: "body ''latex'' = Some v" "truthy v"
      and flag: "body ''autoFix'' = Some f" "\<not> truthy f"
      and mkdir: "mkdir_res e = None"
      and written: "write_res e 1 v = None"
      and failed: "fst (compileLatex e 1 v first_world) = Inl m"
  shows "\<exists>r. fst (compile_handler e body) = Json_500 r \<and>
             attempts r = MAX_ATTEMPTS \<and> attempts r \<noteq> 1 \<and> llmSuggestions r = None \<and>
             compiler_runs (snd (compile_handler e body)) = 1 \<and>
             fix_calls (snd (compile_handler e body)) = 0"
proof -
  obtain wc where c: "compileLatex e 1 v first_world = (Inl m, wc)"
    using failed by (cases "compileLatex e 1 v first_world") simp
  from compileLatex_trace [of e 1 v first_world] c written
  have tc: "trace wc = [EvMkdir, EvWriteTex 1, EvRunCompiler 1]" by (simp add: first_world_def)
  from c have t: "try_attempt e 1 v first_world = (Inl m, wc)" by (simp add: try_attempt_def)
  have l: "retry_loop e False 1 v None None first_world = (Left (Some m) None, wc)"
    using t by (simp add: retry_loop.simps MAX_ATTEMPTS_def)
  obtain rr wr where r: "fs_rm e wc = (rr, wr)" by (cases "fs_rm e wc")
  then have tr: "trace wr = trace wc @ [EvRm]"
    by (auto simp: fs_rm_def log_event_def split: option.splits)
  have m: "fs_mkdir e \<lparr>dir_exists = False, trace = []\<rparr> = (None, first_world)"
    using mkdir by (simp add: fs_mkdir_def log_event_def first_world_def)
  have "compile_handler e body =
          (Json_500 \<lparr>error = hd (split m [newline]),
                     details = (if includes_str m ''Details:'' then trim (split m ''Details:'' ! 1) else m),
                     jobId = uuid e, attempts = MAX_ATTEMPTS, llmSuggestions = None\<rparr>, wr)"
    using latex flag m l r by (simp add: compile_handler_def report_failure_def)
  with tc tr show ?thesis
    by (simp add: compiler_runs_def fix_calls_def MAX_ATTEMPTS_def)
qed

text \<open>The request with \<^verbatim>\<open>autoFix: false\<close> where the compiler always fails.\<close>

theorem no_fix_single_attempt_witness:
  "no_fix_request ''latex'' = Some (JStr ''x'') \<and> truthy (JStr ''x'') \<and>
   no_fix_request ''autoFix'' = Some (JBool False) \<and> \<not> truthy (JBool False) \<and>
   mkdir_res failing_env = None \<and> write_res failing_env 1 (JStr ''x'') = None \<and>
   (\<exists>r. fst (compile_handler failing_env no_fix_request) = Json_500 r \<and>
        attempts r = MAX_ATTEMPTS \<and> attempts r \<noteq> 1 \<and> llmSuggestions r = None \<and>
        compiler_runs (snd (compile_handler failing_env no_fix_request)) = 1 \<and>
        fix_calls (snd (compile_handler failing_env no_fix_request)) = 0)"
proof -
  have a: "no_fix_request ''latex'' = Some (JStr ''x'')" "truthy (JStr ''x'')"
    by (simp_all add: no_fix_request_def)
  have b: "no_fix_request ''autoFix'' = Some (JBool False)" "\<not> truthy (JBool False)"
    by (simp_all add: no_fix_request_def)
  have c: "mkdir_res failing_env = None" "write_res failing_env 1 (JStr ''x'') = None"
    by (simp_all add: failing_env_def good_env_def)
  have d: "fst (compileLatex failing_env 1 (JStr ''x'') first_world) =
             Inl (compile_catch failing_env 1 (JStr ''x'') ''Command failed: pdflatex'')"
    by (simp add: compileLatex_def failing_env_def good_env_def)
  from no_fix_single_attempt [OF a b c d] a b c show ?thesis by blast
qed

text \<open>The whole response and footprint of that request.\<close>

theorem no_fix_reports_three_attempts:
  "compile_handler failing_env no_fix_request =
     (Json_500
        \<lparr>error = ''Undefined LaTeX command. Check for typos in commands or missing packages.'',
         details = ''! Undefined control sequence.'' @ newline # ''l.3 x'',
         jobId = ''job-1'', attempts = 3, llmSuggestions = None\<rparr>,
      \<lparr>dir_exists = False, trace = [EvMkdir, EvWriteTex 1, EvRunCompiler 1, EvRm]\<rparr>)"
  by code_simp

section \<open>The log interpreter\<close>

text \<open>
  C3. When the first line of the log that starts with the error marker contains
  \<^verbatim>\<open>Undefined control sequence\<close>, the classified message is the canned sentence, whatever
  the lines before it (none of which starts with the marker) and after it are. The
  sentence is also the first line of the error message built from it, which the response
  shows as \<^verbatim>\<open>error\<close>, with \<^verbatim>\<open>extractLatexError\<close> as with the parsing inside the handler
  of \<^verbatim>\<open>server.js\<close>.
\<close>

theorem undefined_command_first_marker:
  assumes "find is_error_line (split log [newline]) = Some line"
      and "includes_str line ''Undefined control sequence''"
  shows "userFriendlyError (extractLatexError (Inr log)) =
           ''Undefined LaTeX command. Check for typos in commands or missing packages.'' \<and>
         hd (split (failure_message (extractLatexError (Inr log))) [newline]) =
           ''Undefined LaTeX command. Check for typos in commands or missing packages.'' \<and>
         hd (split (inline_log_error m err (Inr log)) [newline]) =
           ''Undefined LaTeX command. Check for typos in commands or missing packages.''"
proof -
  let ?canned = "''Undefined LaTeX command. Check for typos in commands or missing packages.''"
  have nl: "newline \<notin> set ?canned" by (simp add: newline_def)
  from assms have u: "userFriendlyError (extractLatexError (Inr log)) = ?canned"
    by (simp add: extractLatexError_def scan_log_find classify_def)
  from assms(2) have c: "classify line = ?canned" by (simp add: classify_def)
  from u nl first_line_of_failure_message [of "extractLatexError (Inr log)"]
  have a: "hd (split (failure_message (extractLatexError (Inr log))) [newline]) = ?canned" by simp
  from inline_log_error_found [OF assms(1)] c nl
       first_line_of_failure_message [of "\<lparr>userFriendlyError = classify line,
              errorDetails = join (take 5 (dropWhile (\<lambda>l. \<not> is_error_line l) (split log [newline])))\<rparr>"]
  have b: "hd (split (inline_log_error m err (Inr log)) [newline]) = ?canned" by simp
  from u a b show ?thesis by blast
qed

text \<open>A log with noise before the error line and a second error after it.\<close>

theorem undefined_command_first_marker_witness:
  "find is_error_line (split noisy_log [newline]) = Some ''! Undefined control sequence.'' \<and>
   includes_str ''! Undefined control sequence.'' ''Undefined control sequence'' \<and>
   userFriendlyError (extractLatexError (Inr noisy_log)) =
     ''Undefined LaTeX command. Check for typos in commands or missing packages.'' \<and>
   hd (split (failure_message (extractLatexError (Inr noisy_log))) [newline]) =
     ''Undefined LaTeX command. Check for typos in commands or missing packages.'' \<and>
   hd (split (inline_log_error ''Command failed: pdflatex'' [] (Inr noisy_log)) [newline]) =
     ''Undefined LaTeX command. Check for typos in commands or missing packages.''"
proof -
  have a: "find is_error_line (split noisy_log [newline]) = Some ''! Undefined control sequence.''"
    by code_simp
  have b: "includes_str ''! Undefined control sequence.'' ''Undefined control sequence''"
    by code_simp
  from undefined_command_first_marker [OF a b, of "''Command failed: pdflatex''" "[]"] a b
  show ?thesis by blast
qed

text \<open>
  An error line of another kind before the undefined-command line decides the message:
  only the first line with the marker is classified.
\<close>

theorem first_marker_wins_counterexample:
  "split two_error_log [newline] ! 1 = ''! Undefined control sequence.'' \<and>
   is_error_line (split two_error_log [newline] ! 1) \<and>
   includes_str (split two_error_log [newline] ! 1) ''Undefined control sequence'' \<and>
   userFriendlyError (extractLatexError (Inr two_error_log)) =
     ''Missing delimiter or bracket. Check for unclosed braces, brackets, or math mode.'' \<and>
   userFriendlyError (extractLatexError (Inr two_error_log)) \<noteq>
     ''Undefined LaTeX command. Check for typos in commands or missing packages.''"
  by code_simp

text \<open>
  C4. For every log text the result of the log interpreter is determined by the first line
  that starts with the marker. If there is none, the message is the generic one and the
  excerpt is made of the last ten lines that are neither blank nor contain
  \<^verbatim>\<open>*File List*\<close>. Otherwise the line is tested for \<^verbatim>\<open>Undefined control sequence\<close>, then
  for \<^verbatim>\<open>File\<close> together with \<^verbatim>\<open>not found\<close>, then for \<^verbatim>\<open>Missing\<close>, then for
  \<^verbatim>\<open>Emergency stop\<close>; the first test that holds gives the sentence (the missing-file
  sentence names the file matched by the regular expression, or \<^verbatim>\<open>unknown\<close>), and when
  none holds the message is the line without the marker, trimmed. The excerpt is then the
  error line and up to four lines after it.
\<close>

theorem extractLatexError_first_marker:
  "extractLatexError (Inr log) =
     (let lines = split log [newline] in
      case find is_error_line lines of
        None \<Rightarrow>
          \<lparr>userFriendlyError = ''Compilation failed. Check LaTeX syntax.'',
           errorDetails =
             join (slice_last 10
                     (filter (\<lambda>l. trim l \<noteq> [] \<and> \<not> includes_str l ''*File List*'') lines))\<rparr>
      | Some line \<Rightarrow>
          \<lparr>userFriendlyError =
             (if includes_str line ''Undefined control sequence''
              then ''Undefined LaTeX command. Check for typos in commands or missing packages.''
              else if includes_str line ''File'' \<and> includes_str line ''not found''
              then ''Missing file or package: ''
                   @ (case match_File line of Some g \<Rightarrow> g | None \<Rightarrow> ''unknown'')
                   @ ''. Add '' @ backslash # ''usepackage{} for missing packages.''
              else if includes_str line ''Missing''
              then ''Missing delimiter or bracket. Check for unclosed braces, brackets, or math mode.''
              else if includes_str line ''Emergency stop''
              then ''Critical LaTeX error. Check document structure and syntax.''
              else trim (drop 1 line)),
           errorDetails = join (take 5 (dropWhile (\<lambda>l. \<not> is_error_line l) lines))\<rparr>)"
  by (simp add: extractLatexError_def scan_log_find classify_def Let_def split: option.splits)

text \<open>
  The excerpt is not the last non-empty lines: a line that contains \<^verbatim>\<open>*File List*\<close> is
  left out. The fallback message is trimmed after the marker is dropped.
\<close>

theorem excerpt_filter_counterexample:
  "find is_error_line (split file_list_log [newline]) = None \<and>
   errorDetails (extractLatexError (Inr file_list_log)) = ''a'' \<and>
   last_nonempty_lines 10 file_list_log = ''a'' @ newline # '' *File List*'' \<and>
   errorDetails (extractLatexError (Inr file_list_log)) \<noteq> last_nonempty_lines 10 file_list_log \<and>
   userFriendlyError (extractLatexError (Inr ''!  Package error  '')) = ''Package error'' \<and>
   userFriendlyError (extractLatexError (Inr ''!  Package error  '')) \<noteq> drop 1 ''!  Package error  ''"
  by code_simp

text \<open>
  The missing-package log of \<^verbatim>\<open>test-errors.js\<close>, and the regular expression on a quote
  right after the back-tick, on a name that is not closed, and on a carriage return.
\<close>

lemma missing_package_example:
  "classify (''! LaTeX Error: File `tikz.sty'' @ quote # '' not found.'') =
     ''Missing file or package: tikz.sty. Add '' @ backslash # ''usepackage{} for missing packages.''"
  by code_simp

lemma match_File_examples:
  "match_File (''File `'' @ quote # ''a'' @ quote # ''b'') = Some (quote # ''a'')"
  "match_File (''File `a.sty'') = None"
  "match_File (''File `'' @ CHR 0x0D # ''File `b'' @ quote # ''c'') = Some ''b''"
  by code_simp+

section \<open>Removal of the working directory\<close>




section \<open>A removal that fails after a successful compilation\<close>

text \<open>
  C6. The same request in two environments that differ only in \<^verbatim>\<open>fs.rm\<close>. Where the removal
  works the artifact is sent after one attempt. Where it is refused, the error of the
  removal after the successful compilation is taken for a compilation error: the fix
  service is asked to repair a source that compiled, the compiler runs three times, and
  the response is a 500 report whose message is the removal's.
\<close>

theorem cleanup_error_changes_response:
  "fst (compile_handler good_env plain_request) = Send_pdf ''job-1'' ''%PDF'' 1 False \<and>
   compile_handler busy_env plain_request =
     (Json_500
        \<lparr>error = ''EBUSY: resource busy or locked'',
         details = ''EBUSY: resource busy or locked'',
         jobId = ''job-1'', attempts = 3,
         llmSuggestions =
           Some (''AI has attempted to fix the following issues:'' @ newline
                 # ''EBUSY: resource busy or locked'')\<rparr>,
      \<lparr>dir_exists = True,
       trace = [EvMkdir, EvWriteTex 1, EvRunCompiler 1, EvRm, EvFix 1,
                EvWriteTex 2, EvRunCompiler 2, EvRm, EvFix 2,
                EvWriteTex 3, EvRunCompiler 3, EvRm, EvRm]\<rparr>)"
  by code_simp

text \<open>
  The two other removals drop their error: the report of a failed job and the response of
  the outermost handler do not depend on what \<^verbatim>\<open>fs.rm\<close> does.
\<close>

lemma failure_report_ignores_removal:
  "fst (report_failure (e\<lparr>rm_res := r\<rparr>) le sg w) = fst (report_failure e le sg w) \<and>
   fst (outer_catch (e\<lparr>rm_res := r\<rparr>) m w) = fst (outer_catch e m w)"
  by (simp add: report_failure_def outer_catch_def case_prod_beta split: option.splits)

text \<open>In \<^verbatim>\<open>server.js\<close> the removal after the compilation has no handler of its own either.\<close>

lemma server_cleanup_error:
  "fst (server_compile_handler good_env plain_request) = Send_pdf_plain ''job-1'' ''%PDF'' \<and>
   fst (server_compile_handler busy_env plain_request) =
     Json_500_suggestion ''EBUSY: resource busy or locked'' ''EBUSY: resource busy or locked''
       None ''job-1''"
  by code_simp

section \<open>The compiler invoker\<close>

text \<open>
  C7. The compiler invoker returns the artifact exactly when the source was written, the
  compiler run was not rejected (zero exit status within the timeout), the artifact file
  exists afterwards and it can be read. So a success implies that the artifact exists,
  and a run that exits with zero and leaves no artifact is a failure.
\<close>

theorem compileLatex_success_iff:
  "(succeeded (fst (compileLatex e k latex w)) \<longleftrightarrow>
      write_res e k latex = None \<and> exec_res e k latex = None \<and> pdf_exists e k latex \<and>
      succeeded (pdf_read e k latex)) \<and>
   (succeeded (fst (compileLatex e k latex w)) \<longrightarrow> pdf_exists e k latex) \<and>
   (write_res e k latex = None \<and> exec_res e k latex = None \<and> \<not> pdf_exists e k latex \<longrightarrow>
      \<not> succeeded (fst (compileLatex e k latex w)))"
  by (auto simp: compileLatex_def succeeded_def Let_def split: option.splits sum.splits)

text \<open>A compiler that exits with zero without an artifact, and one that produces it.\<close>

theorem compileLatex_success_iff_witness:
  "write_res silent_env 1 (JStr ''x'') = None \<and> exec_res silent_env 1 (JStr ''x'') = None \<and>
   \<not> pdf_exists silent_env 1 (JStr ''x'') \<and>
   \<not> succeeded (fst (compileLatex silent_env 1 (JStr ''x'') first_world)) \<and>
   succeeded (fst (compileLatex good_env 1 (JStr ''x'') first_world)) \<and>
   pdf_exists good_env 1 (JStr ''x'')"
proof -
  have a: "write_res silent_env 1 (JStr ''x'') = None" "exec_res silent_env 1 (JStr ''x'') = None"
    "\<not> pdf_exists silent_env 1 (JStr ''x'')"
    by (simp_all add: silent_env_def good_env_def)
  have b: "succeeded (fst (compileLatex good_env 1 (JStr ''x'') first_world))" by code_simp
  from compileLatex_success_iff [of silent_env 1 "JStr ''x''" first_world]
       compileLatex_success_iff [of good_env 1 "JStr ''x''" first_world] a b
  show ?thesis by blast
qed

text \<open>A rejected run is a failure even when an artifact file exists.\<close>

theorem rejected_run_counterexample:
  "pdf_exists stale_env 1 (JStr ''x'') \<and>
   \<not> succeeded (fst (compileLatex stale_env 1 (JStr ''x'') first_world))"
  by code_simp

section \<open>Input validation\<close>

text \<open>
  C8. A body without the property \<^verbatim>\<open>latex\<close> is answered with status 400 and the fixed
  message; no external call is made, in particular no directory is created.
\<close>

theorem missing_source_rejected:
  assumes "body ''latex'' = None"
  shows "fst (compile_handler e body) = Json_400 ''No LaTeX content provided'' \<and>
         status (fst (compile_handler e body)) = 400 \<and>
         trace (snd (compile_handler e body)) = [] \<and>
         \<not> dir_exists (snd (compile_handler e body))"
  using assms by (simp add: compile_handler_def)

theorem missing_source_rejected_witness:
  "[''autoFix'' \<mapsto> JBool True] ''latex'' = None \<and>
   fst (compile_handler good_env [''autoFix'' \<mapsto> JBool True]) = Json_400 ''No LaTeX content provided'' \<and>
   status (fst (compile_handler good_env [''autoFix'' \<mapsto> JBool True])) = 400 \<and>
   trace (snd (compile_handler good_env [''autoFix'' \<mapsto> JBool True])) = [] \<and>
   \<not> dir_exists (snd (compile_handler good_env [''autoFix'' \<mapsto> JBool True]))"
proof -
  have a: "[''autoFix'' \<mapsto> JBool True] ''latex'' = None" by simp
  from missing_source_rejected [of "[''autoFix'' \<mapsto> JBool True]" good_env] a show ?thesis by blast
qed

section \<open>The reply of the completion service\<close>

text \<open>
  C9. The cleaned reply is the trimmed reply cut at every \<^verbatim>\<open>```latex\<close> marker and then at
  every \<^verbatim>\<open>```\<close> marker that is left, each marker going with the line feed right after
  it. It contains no fence marker. A reply that contains no marker is returned trimmed,
  and then has no white space at either end; a reply that is one fenced block around a
  body without back-ticks is returned as the body followed by the line feed that stood
  before the closing fence.
\<close>

theorem clean_response_no_marker:
  "clean_response reply = without_marker ''```'' (without_marker ''```latex'' (trim reply)) \<and>
   \<not> includes_str (clean_response reply) ''```'' \<and>
   (\<not> includes_str reply ''```'' \<longrightarrow>
      clean_response reply = trim reply \<and>
      (clean_response reply = [] \<or>
       \<not> is_space (hd (clean_response reply)) \<and> \<not> is_space (last (clean_response reply)))) \<and>
   (CHR 0x60 \<notin> set body \<longrightarrow>
      clean_response (''```latex'' @ newline # body @ newline # ''```'') = body @ [newline])"
proof (intro conjI impI)
  show "clean_response reply = without_marker ''```'' (without_marker ''```latex'' (trim reply))"
    by (simp only: clean_response_def replace_fence_without_marker
          replace_fence_latex_without_marker)
next
  show "\<not> includes_str (clean_response reply) ''```''"
    by (simp add: clean_response_def replace_fence_clean)
next
  assume "\<not> includes_str reply ''```''"
  with trim_sublist [of reply] have "\<not> includes_str (trim reply) ''```''"
    by (auto simp: includes_str_sublist dest: sublist_order.order_trans)
  then show eq: "clean_response reply = trim reply"
    by (simp add: clean_response_def replace_fence_latex_id replace_fence_id)
  from trim_ends [of reply]
  show "clean_response reply = [] \<or>
       \<not> is_space (hd (clean_response reply)) \<and> \<not> is_space (last (clean_response reply))"
    by (simp add: eq)
next
  assume "CHR 0x60 \<notin> set body"
  then show "clean_response (''```latex'' @ newline # body @ newline # ''```'') = body @ [newline]"
    by (rule clean_fenced)
qed

text \<open>A reply without a fence, surrounded by white space, and the usual fenced reply.\<close>

theorem clean_response_no_marker_witness:
  "\<not> includes_str ''  fixed  '' ''```'' \<and>
   clean_response ''  fixed  '' = trim ''  fixed  '' \<and>
   trim ''  fixed  '' = ''fixed'' \<and>
   CHR 0x60 \<notin> set ''fixed'' \<and>
   clean_response (''```latex'' @ newline # ''fixed'' @ newline # ''```'') = ''fixed'' @ [newline] \<and>
   clean_response fenced_reply =
     without_marker ''```'' (without_marker ''```latex'' (trim fenced_reply)) \<and>
   without_marker ''```'' (without_marker ''```latex'' (trim fenced_reply)) = ''fixed'' @ [newline] \<and>
   \<not> includes_str (clean_response fenced_reply) ''```''"
proof -
  have a: "\<not> includes_str ''  fixed  '' ''```''" by code_simp
  have b: "trim ''  fixed  '' = ''fixed''" by code_simp
  have c: "CHR 0x60 \<notin> set ''fixed''" by simp
  have d: "without_marker ''```'' (without_marker ''```latex'' (trim fenced_reply)) =
             ''fixed'' @ [newline]"
    by code_simp
  from clean_response_no_marker [of "''  fixed  ''" "''fixed''"] a
  have e: "clean_response ''  fixed  '' = trim ''  fixed  ''" by blast
  from clean_response_no_marker [of "''  fixed  ''" "''fixed''"] c
  have f: "clean_response (''```latex'' @ newline # ''fixed'' @ newline # ''```'') =
             ''fixed'' @ [newline]"
    by blast
  from clean_response_no_marker [of fenced_reply "''fixed''"]
  have g: "clean_response fenced_reply =
             without_marker ''```'' (without_marker ''```latex'' (trim fenced_reply))"
    and h: "\<not> includes_str (clean_response fenced_reply) ''```''"
    by blast+
  from a e b c f g d h show ?thesis by blast
qed

text \<open>
  The reply is trimmed before the markers are removed, so the line feed in front of the
  closing fence ends the result.
\<close>

theorem fence_shields_whitespace_counterexample:
  "clean_response fenced_reply = ''fixed'' @ [newline] \<and>
   clean_response fenced_reply \<noteq> [] \<and>
   is_space (last (clean_response fenced_reply))"
  by code_simp

section \<open>Presence of the source is tested by truthiness\<close>

text \<open>
  C10. A body whose \<^verbatim>\<open>latex\<close> property is a falsy value (the empty string, \<^verbatim>\<open>null\<close>,
  \<^verbatim>\<open>false\<close> or \<^verbatim>\<open>0\<close>) is answered exactly as the body without that property: status 400,
  the same message, no external call and no directory. The handler of \<^verbatim>\<open>server.js\<close> tests
  the property in the same way.
\<close>

theorem falsy_source_rejected:
  assumes "body ''latex'' = Some v" and "\<not> truthy v"
  shows "compile_handler e body = compile_handler e (body(''latex'' := None)) \<and>
         fst (compile_handler e body) = Json_400 ''No LaTeX content provided'' \<and>
         status (fst (compile_handler e body)) = 400 \<and>
         trace (snd (compile_handler e body)) = [] \<and>
         \<not> dir_exists (snd (compile_handler e body)) \<and>
         server_compile_handler e body = server_compile_handler e (body(''latex'' := None)) \<and>
         server_compile_handler e body =
           (Json_400 ''No LaTeX content provided'', \<lparr>dir_exists = False, trace = []\<rparr>)"
  using assms by (simp add: compile_handler_def server_compile_handler_def)

theorem falsy_source_rejected_witness:
  "[''latex'' \<mapsto> JStr []] ''latex'' = Some (JStr []) \<and> \<not> truthy (JStr []) \<and>
   compile_handler good_env [''latex'' \<mapsto> JStr []] =
     compile_handler good_env ([''latex'' \<mapsto> JStr []](''latex'' := None)) \<and>
   fst (compile_handler good_env [''latex'' \<mapsto> JStr []]) = Json_400 ''No LaTeX content provided'' \<and>
   status (fst (compile_handler good_env [''latex'' \<mapsto> JStr []])) = 400 \<and>
   trace (snd (compile_handler good_env [''latex'' \<mapsto> JStr []])) = [] \<and>
   \<not> dir_exists (snd (compile_handler good_env [''latex'' \<mapsto> JStr []])) \<and>
   server_compile_handler good_env [''latex'' \<mapsto> JStr []] =
     server_compile_handler good_env ([''latex'' \<mapsto> JStr []](''latex'' := None)) \<and>
   server_compile_handler good_env [''latex'' \<mapsto> JStr []] =
     (Json_400 ''No LaTeX content provided'', \<lparr>dir_exists = False, trace = []\<rparr>)"
proof -
  have a: "[''latex'' \<mapsto> JStr []] ''latex'' = Some (JStr [])" by simp
  have b: "\<not> truthy (JStr [])" by simp
  from falsy_source_rejected [of "[''latex'' \<mapsto> JStr []]" "JStr []" good_env] a b show ?thesis by blast
qed

end
